theory Spec2Isabelle
  imports Complex_Main "HOL-Library.Word"
begin

section \<open>Floating-point values\<close>

text \<open>
  The program computes on C \<open>float\<close> values.  A value is modelled as a finite real
  number, one of the two infinities, or NaN.  The special values follow IEEE 754:
  division by zero yields an infinity, invalid operations yield NaN, and every ordered
  comparison with NaN is false.  Finite results are exact: rounding to 24 bits and
  overflow of finite results to infinity are not modelled, and neither is the sign of
  zero (zero behaves as \<open>+0\<close>, the zero that a conversion from an integer produces).
\<close>

datatype float = Fin real | PInf | MInf | NaN

fun is_finite :: "float \<Rightarrow> bool" where
  "is_finite (Fin a) = True"
| "is_finite PInf = False"
| "is_finite MInf = False"
| "is_finite NaN = False"

text \<open>The ordered comparisons \<open><\<close> and \<open><=\<close> of C.\<close>

fun flt :: "float \<Rightarrow> float \<Rightarrow> bool" where
  "flt (Fin a) (Fin b) = (a < b)"
| "flt (Fin a) PInf = True"
| "flt (Fin a) MInf = False"
| "flt (Fin a) NaN = False"
| "flt PInf y = False"
| "flt MInf (Fin b) = True"
| "flt MInf PInf = True"
| "flt MInf MInf = False"
| "flt MInf NaN = False"
| "flt NaN y = False"

fun fle :: "float \<Rightarrow> float \<Rightarrow> bool" where
  "fle (Fin a) (Fin b) = (a \<le> b)"
| "fle (Fin a) PInf = True"
| "fle (Fin a) MInf = False"
| "fle (Fin a) NaN = False"
| "fle PInf (Fin b) = False"
| "fle PInf PInf = True"
| "fle PInf MInf = False"
| "fle PInf NaN = False"
| "fle MInf (Fin b) = True"
| "fle MInf PInf = True"
| "fle MInf MInf = True"
| "fle MInf NaN = False"
| "fle NaN y = False"

text \<open>Unary minus and the four arithmetic operators.\<close>

fun fneg :: "float \<Rightarrow> float" where
  "fneg (Fin a) = Fin (- a)"
| "fneg PInf = MInf"
| "fneg MInf = PInf"
| "fneg NaN = NaN"

fun fadd :: "float \<Rightarrow> float \<Rightarrow> float" where
  "fadd (Fin a) (Fin b) = Fin (a + b)"
| "fadd (Fin a) PInf = PInf"
| "fadd (Fin a) MInf = MInf"
| "fadd (Fin a) NaN = NaN"
| "fadd PInf (Fin b) = PInf"
| "fadd PInf PInf = PInf"
| "fadd PInf MInf = NaN"
| "fadd PInf NaN = NaN"
| "fadd MInf (Fin b) = MInf"
| "fadd MInf PInf = NaN"
| "fadd MInf MInf = MInf"
| "fadd MInf NaN = NaN"
| "fadd NaN y = NaN"

definition fsub :: "float \<Rightarrow> float \<Rightarrow> float" where
  "fsub x y = fadd x (fneg y)"

text \<open>The sign of a product or quotient with an infinite operand.\<close>

definition signed_inf :: "bool \<Rightarrow> float" where
  "signed_inf negative = (if negative then MInf else PInf)"

fun fmul :: "float \<Rightarrow> float \<Rightarrow> float" where
  "fmul (Fin a) (Fin b) = Fin (a * b)"
| "fmul (Fin a) PInf = (if a = 0 then NaN else signed_inf (a < 0))"
| "fmul (Fin a) MInf = (if a = 0 then NaN else signed_inf (0 < a))"
| "fmul (Fin a) NaN = NaN"
| "fmul PInf (Fin b) = (if b = 0 then NaN else signed_inf (b < 0))"
| "fmul PInf PInf = PInf"
| "fmul PInf MInf = MInf"
| "fmul PInf NaN = NaN"
| "fmul MInf (Fin b) = (if b = 0 then NaN else signed_inf (0 < b))"
| "fmul MInf PInf = MInf"
| "fmul MInf MInf = PInf"
| "fmul MInf NaN = NaN"
| "fmul NaN y = NaN"

fun fdiv :: "float \<Rightarrow> float \<Rightarrow> float" where
  "fdiv (Fin a) (Fin b) =
     (if b = 0 then (if a = 0 then NaN else signed_inf (a < 0)) else Fin (a / b))"
| "fdiv (Fin a) PInf = Fin 0"
| "fdiv (Fin a) MInf = Fin 0"
| "fdiv (Fin a) NaN = NaN"
| "fdiv PInf (Fin b) = signed_inf (b < 0)"
| "fdiv PInf PInf = NaN"
| "fdiv PInf MInf = NaN"
| "fdiv PInf NaN = NaN"
| "fdiv MInf (Fin b) = signed_inf (0 \<le> b)"
| "fdiv MInf PInf = NaN"
| "fdiv MInf MInf = NaN"
| "fdiv MInf NaN = NaN"
| "fdiv NaN y = NaN"


section \<open>Library functions and Arduino macros\<close>

text \<open>
  Modelled from the spec: \<open>math.h\<close> is not among the sources.  \<open>log10f\<close> is the
  base-10 logarithm of section 4.1; outside the positive numbers it returns what C
  prescribes: minus infinity at zero and NaN below zero.
\<close>

fun log10f :: "float \<Rightarrow> float" where
  "log10f (Fin a) = (if a < 0 then NaN else if a = 0 then MInf else Fin (log 10 a))"
| "log10f PInf = PInf"
| "log10f MInf = NaN"
| "log10f NaN = NaN"

text \<open>Whether a real exponent is an integer, and whether it is an odd one.\<close>

definition is_integer :: "real \<Rightarrow> bool" where
  "is_integer b = (of_int \<lfloor>b\<rfloor> = b)"

definition is_odd_integer :: "real \<Rightarrow> bool" where
  "is_odd_integer b = (is_integer b \<and> odd \<lfloor>b\<rfloor>)"

text \<open>
  Modelled from the spec: \<open>math.h\<close> is not among the sources.  \<open>pow x y\<close> raises
  \<open>x\<close> to the power \<open>y\<close> (sections 4.1 and 4.3).  The special cases are those of
  C's \<open>pow\<close>: the result is 1 for an exponent of zero and for a base of 1, whatever
  the other operand; \<open>pow_cases\<close> lists the remaining ones.
\<close>

fun pow_cases :: "float \<Rightarrow> float \<Rightarrow> float" where
  "pow_cases (Fin a) (Fin b) =
     (if a = 0 then (if b < 0 then PInf else Fin 0)
      else if 0 < a then Fin (a powr b)
      else if is_integer b then Fin (a powi \<lfloor>b\<rfloor>)
      else NaN)"
| "pow_cases (Fin a) PInf =
     (if \<bar>a\<bar> < 1 then Fin 0 else if \<bar>a\<bar> = 1 then Fin 1 else PInf)"
| "pow_cases (Fin a) MInf =
     (if \<bar>a\<bar> < 1 then PInf else if \<bar>a\<bar> = 1 then Fin 1 else Fin 0)"
| "pow_cases (Fin a) NaN = NaN"
| "pow_cases PInf (Fin b) = (if b < 0 then Fin 0 else PInf)"
| "pow_cases PInf PInf = PInf"
| "pow_cases PInf MInf = Fin 0"
| "pow_cases PInf NaN = NaN"
| "pow_cases MInf (Fin b) =
     (if b < 0 then Fin 0 else if is_odd_integer b then MInf else PInf)"
| "pow_cases MInf PInf = PInf"
| "pow_cases MInf MInf = Fin 0"
| "pow_cases MInf NaN = NaN"
| "pow_cases NaN y = NaN"

definition pow :: "float \<Rightarrow> float \<Rightarrow> float" where
  "pow x y = (if y = Fin 0 \<or> x = Fin 1 then Fin 1 else pow_cases x y)"

text \<open>
  Modelled from the spec: \<open>Arduino.h\<close> is not among the sources.  \<open>max\<close> and
  \<open>min\<close> pick the greater and the smaller operand and \<open>abs\<close> is the magnitude, as
  section 4 uses them.  Each operand is evaluated once.  The choice is made by one
  comparison, \<open>(a)>(b)\<close> for \<open>max\<close>, \<open>(a)<(b)\<close> for \<open>min\<close> and \<open>(x)>0\<close> for
  \<open>abs\<close>; it is false when an operand is NaN, and the second alternative is taken.
\<close>

definition max_float :: "float \<Rightarrow> float \<Rightarrow> float" where
  "max_float a b = (if flt b a then a else b)"

definition min_float :: "float \<Rightarrow> float \<Rightarrow> float" where
  "min_float a b = (if flt a b then a else b)"

definition abs_float :: "float \<Rightarrow> float" where
  "abs_float x = (if flt (Fin 0) x then x else fneg x)"

text \<open>
  The conversion of a \<open>float\<close> to \<open>long\<close> truncates towards zero.  C leaves it
  undefined for NaN, for the infinities and for values beyond the range of \<open>long\<close>
  (32 bits); the model returns \<open>None\<close> there.
\<close>

fun long_of_float :: "float \<Rightarrow> int option" where
  "long_of_float (Fin a) =
     (let t = (if 0 \<le> a then \<lfloor>a\<rfloor> else \<lceil>a\<rceil>)
      in if - (2 ^ 31) \<le> t \<and> t < 2 ^ 31 then Some t else None)"
| "long_of_float PInf = None"
| "long_of_float MInf = None"
| "long_of_float NaN = None"

text \<open>
  Modelled from the spec: \<open>Arduino.h\<close> is not among the sources.  \<open>round\<close> rounds
  to the nearest integer (section 4.3, step 5), halves away from zero, by the
  macro's \<open>(x)>=0 ? (long)((x)+0.5) : (long)((x)-0.5)\<close>.
\<close>

definition round_long :: "float \<Rightarrow> int option" where
  "round_long x =
     (if fle (Fin 0) x then long_of_float (fadd x (Fin (1/2)))
      else long_of_float (fsub x (Fin (1/2))))"

text \<open>
  Modelled from the spec: \<open>stdint.h\<close> and \<open>stdlib.h\<close> are not among the sources.
  \<open>UINT8_MAX\<close> is the largest output value, 255 (section 4.3); \<open>RAND_MAX\<close> is the
  largest number that \<open>rand()\<close> returns, 32767 in the C library of the AVR target.
\<close>

definition UINT8_MAX :: int where
  "UINT8_MAX = 255"

definition RAND_MAX :: int where
  "RAND_MAX = 32767"

section \<open>Physical sensor reading and calibration\<close>

text \<open>
  The build-time switches of the sketch: the two power-law correctors and the flag
  that adds the calibrated absorbance to each frame.  \<open>source_config\<close> holds the
  values the sketch is shipped with.
\<close>

record config =
  POWER_LAW_CORRECTOR_GAMMA :: float
  POWER_LAW_CORRECTOR_C :: float
  OUTPUT_CALIBRATED_A :: bool

definition source_config :: config where
  "source_config =
     \<lparr> POWER_LAW_CORRECTOR_GAMMA = Fin (666 / 1000),
       POWER_LAW_CORRECTOR_C = Fin 1,
       OUTPUT_CALIBRATED_A = False \<rparr>"

text \<open>The two reference readings taken by \<open>setup\<close>.\<close>

record calibration =
  physical_dark :: float
  physical_full :: float

text \<open>\<open>read_physical_sensor\<close>: the ADC count returned by \<open>analogRead\<close>, cast to float.\<close>

definition read_physical_sensor :: "int \<Rightarrow> float" where
  "read_physical_sensor adc = Fin (of_int adc)"

text \<open>\<open>physical_to_A\<close>: a raw reading to the calibrated absorbance.\<close>

definition physical_to_A :: "config \<Rightarrow> calibration \<Rightarrow> float \<Rightarrow> float" where
  "physical_to_A cfg cal physical_value =
     pow (max_float (Fin 0)
            (fdiv (log10f (fdiv (physical_full cal) physical_value))
                  (POWER_LAW_CORRECTOR_C cfg)))
         (POWER_LAW_CORRECTOR_GAMMA cfg)"


section \<open>Absorbance scaling and simulation timing\<close>

definition MAX_A :: float where
  "MAX_A = Fin 2"

definition to_byte :: float where
  "to_byte = fdiv (Fin (of_int UINT8_MAX)) MAX_A"

definition simulation_dt_ms :: int where
  "simulation_dt_ms = 25"

definition MAX_MEMORY_SIZE :: nat where
  "MAX_MEMORY_SIZE = 50"

text \<open>
  The expression that turns an absorbance into the value sent on the serial line,
  \<open>round(max(0, min(x*to_byte, UINT8_MAX)))\<close>, before it is narrowed to a byte.
  It occurs in \<open>update\<close> and in \<open>loop\<close>.
\<close>

definition rounded_output :: "float \<Rightarrow> int option" where
  "rounded_output x =
     round_long (max_float (Fin 0) (min_float (fmul x to_byte) (Fin (of_int UINT8_MAX))))"

section \<open>Utility functions\<close>

text \<open>
  \<open>uniform\<close>: the noise sample.  The argument \<open>r\<close> is the number that the call of
  \<open>rand()\<close> returns, between 0 and \<open>RAND_MAX\<close>.
\<close>

definition uniform :: "int \<Rightarrow> float \<Rightarrow> float" where
  "uniform r sigma =
     fmul (fsub (fdiv (Fin (of_int r)) (Fin (of_int RAND_MAX))) (Fin (1/2))) sigma"

text \<open>
  The accumulator of raw reads.  The counter is a C \<open>int\<close>.  On the Arduino Uno,
  the board the sketch is written for, an \<open>int\<close> has 16 bits: the counter is a
  16-bit word read as a signed number, and an increment past 32767 wraps around.
  The sum is kept exact.  The code adds in single precision, where a sum of ADC counts
  is exact as long as it stays below \<open>2 ^ 24\<close>: the model follows the code for such
  sums, which 16384 reads of at most 1023 cannot exceed, and the properties of the
  accumulator are stated for them.
\<close>

record accumulator =
  accumulated_reads_value :: float
  accumulated_reads_count :: "16 word"

definition empty_accumulator :: accumulator where
  "empty_accumulator =
     \<lparr> accumulated_reads_value = Fin 0, accumulated_reads_count = 0 \<rparr>"

definition accumulate_read_physical_sensor :: "int \<Rightarrow> accumulator \<Rightarrow> accumulator" where
  "accumulate_read_physical_sensor adc acc =
     \<lparr> accumulated_reads_value =
         fadd (accumulated_reads_value acc) (read_physical_sensor adc),
       accumulated_reads_count = accumulated_reads_count acc + 1 \<rparr>"

definition get_and_reset_accumulated_reads :: "accumulator \<Rightarrow> float \<times> accumulator" where
  "get_and_reset_accumulated_reads acc =
     (fdiv (accumulated_reads_value acc)
           (Fin (of_int (sint (accumulated_reads_count acc)))),
      \<lparr> accumulated_reads_value = Fin 0, accumulated_reads_count = 0 \<rparr>)"

text \<open>Several reads in a row, one ADC count for each call.\<close>

fun accumulate_reads :: "int list \<Rightarrow> accumulator \<Rightarrow> accumulator" where
  "accumulate_reads [] acc = acc"
| "accumulate_reads (adc # adcs) acc =
     accumulate_reads adcs (accumulate_read_physical_sensor adc acc)"

section \<open>Simulated sensors\<close>

text \<open>
  The class \<open>SimulatedSensor\<close>.  \<open>memory\<close> is the array of \<open>MAX_MEMORY_SIZE\<close>
  bytes; \<open>memory_size\<close> is a \<open>size_t\<close>.
\<close>

record SimulatedSensor =
  memory_size :: nat
  background :: float
  alpha :: float
  gamma :: float
  sigma :: float
  memory :: "8 word list"

text \<open>The conversion of a \<open>long\<close> to \<open>size_t\<close> (16 bits, unsigned) wraps.\<close>

definition size_t_of_long :: "int \<Rightarrow> nat" where
  "size_t_of_long v = nat (v mod 2 ^ 16)"

text \<open>
  The constructor.  It has no result where the conversion of the rounded quotient to
  \<open>long\<close> is undefined.
\<close>

definition new_SimulatedSensor ::
  "float \<Rightarrow> float \<Rightarrow> float \<Rightarrow> float \<Rightarrow> float \<Rightarrow> SimulatedSensor option" where
  "new_SimulatedSensor response_time_ms background' alpha' gamma' sigma' =
     (case round_long (fdiv response_time_ms (Fin (of_int simulation_dt_ms))) of
        None \<Rightarrow> None
      | Some n \<Rightarrow>
          Some \<lparr> memory_size = min (size_t_of_long n) MAX_MEMORY_SIZE,
                 background = background',
                 alpha = alpha',
                 gamma = gamma',
                 sigma = sigma',
                 memory = replicate MAX_MEMORY_SIZE 0 \<rparr>)"

text \<open>
  A sensor as the constructor leaves it and \<open>update\<close> keeps it: the array has its
  declared length and \<open>memory_size\<close> slots of it are in use.  \<open>update\<close> reads and
  writes the array below index \<open>memory_size\<close> only, so that on such a sensor every
  access is within the array.
\<close>

definition sensor_ok :: "SimulatedSensor \<Rightarrow> bool" where
  "sensor_ok s =
     (memory_size s \<le> MAX_MEMORY_SIZE \<and> length (memory s) = MAX_MEMORY_SIZE)"

text \<open>The history of a sensor: the slots in use, oldest first.\<close>

definition history :: "SimulatedSensor \<Rightarrow> 8 word list" where
  "history s = take (memory_size s) (memory s)"

text \<open>The summation loop of \<open>update\<close>, from index \<open>i\<close> on.\<close>

function acc_loop :: "8 word list \<Rightarrow> nat \<Rightarrow> nat \<Rightarrow> float \<Rightarrow> float" where
  "acc_loop mem n i acc =
     (if i < n
      then acc_loop mem n (i + 1) (fadd acc (fdiv (Fin (of_nat (unat (mem ! i)))) to_byte))
      else acc)"
  by pat_completeness auto
termination
  by (relation "measure (\<lambda>(mem, n, i, acc). n - i)") auto

declare acc_loop.simps [simp del]

text \<open>The base value of the sensor (first statement of \<open>update\<close>).\<close>

definition base_value :: "SimulatedSensor \<Rightarrow> float \<Rightarrow> float" where
  "base_value s real_A = fmul (pow real_A (gamma s)) (alpha s)"

text \<open>The value after the response-time smoothing.\<close>

definition smoothed :: "SimulatedSensor \<Rightarrow> float \<Rightarrow> float" where
  "smoothed s real_A =
     (if 1 \<le> memory_size s
      then fdiv (fadd (acc_loop (memory s) (memory_size s) 0 (Fin 0)) (base_value s real_A))
                (Fin (of_nat (memory_size s + 1)))
      else base_value s real_A)"

text \<open>The value after the background floor.\<close>

definition floored :: "SimulatedSensor \<Rightarrow> float \<Rightarrow> float" where
  "floored s real_A =
     (if flt (smoothed s real_A) (background s) then background s else smoothed s real_A)"

text \<open>The value after the noise is added: \<open>simulated_output\<close> before it is quantized.\<close>

definition simulated_output :: "SimulatedSensor \<Rightarrow> float \<Rightarrow> int \<Rightarrow> float" where
  "simulated_output s real_A r = fadd (floored s real_A) (abs_float (uniform r (sigma s)))"

text \<open>The loop that shifts the memory buffer, from index \<open>i\<close> on.\<close>

function shift_loop :: "8 word list \<Rightarrow> nat \<Rightarrow> nat \<Rightarrow> 8 word list" where
  "shift_loop mem n i =
     (if i < n - 1 then shift_loop (mem[i := mem ! (i + 1)]) n (i + 1) else mem)"
  by pat_completeness auto
termination
  by (relation "measure (\<lambda>(mem, n, i). n - 1 - i)") auto

declare shift_loop.simps [simp del]

text \<open>
  \<open>update\<close>: the output byte and the sensor with its shifted memory.  \<open>r\<close> is the
  number drawn by \<open>rand()\<close> for the noise.
\<close>

definition update :: "SimulatedSensor \<Rightarrow> float \<Rightarrow> int \<Rightarrow> (8 word \<times> SimulatedSensor) option" where
  "update s real_A r =
     (case rounded_output (simulated_output s real_A r) of
        None \<Rightarrow> None
      | Some v \<Rightarrow>
          (let simulated_byte_output = (word_of_int v :: 8 word)
           in Some (simulated_byte_output,
                    if 1 \<le> memory_size s
                    then s\<lparr>memory :=
                           (shift_loop (memory s) (memory_size s) 0)
                             [memory_size s - 1 := simulated_byte_output]\<rparr>
                    else s)))"

text \<open>Successive calls of \<open>update\<close> on one sensor, each with its input and its draw.\<close>

fun updates ::
  "SimulatedSensor \<Rightarrow> (float \<times> int) list \<Rightarrow> (8 word list \<times> SimulatedSensor) option" where
  "updates s [] = Some ([], s)"
| "updates s ((real_A, r) # rest) =
     (case update s real_A r of
        None \<Rightarrow> None
      | Some (b, s') \<Rightarrow>
          (case updates s' rest of
             None \<Rightarrow> None
           | Some (bs, s'') \<Rightarrow> Some (b # bs, s'')))"

section \<open>Sensors configuration\<close>

definition sensors_table :: "SimulatedSensor option list" where
  "sensors_table =
     [ new_SimulatedSensor (Fin 3) (Fin (4 / 100)) (Fin 3) (Fin 1) (Fin (20 / 100)),
       new_SimulatedSensor (Fin 400) (Fin (2 / 100)) (Fin (75 / 100)) (Fin 1) (Fin (3 / 100)),
       new_SimulatedSensor (Fin 0) (Fin (3 / 100)) (Fin (50 / 100)) (Fin 1) (Fin (3 / 100)),
       new_SimulatedSensor (Fin 100) (Fin (33 / 100)) (Fin (75 / 100)) (Fin 2) (Fin (1 / 100)) ]"

definition n_sensors :: int where
  "n_sensors = int (length sensors_table)"

section \<open>Setup and loop\<close>

text \<open>The global variables that \<open>loop\<close> reads and writes.\<close>

record state =
  reference :: calibration
  reads :: accumulator
  sensors :: "SimulatedSensor list"
  nextTick :: "32 word"

text \<open>
  The \<open>for\<close> loop of \<open>loop\<close> over the sensors, from index \<open>i\<close> on: the bytes
  written and the updated sensors.  \<open>rnd i\<close> is the number that \<open>rand()\<close> returns in
  the update of sensor \<open>i\<close>.
\<close>

fun update_sensors ::
  "SimulatedSensor list \<Rightarrow> float \<Rightarrow> (nat \<Rightarrow> int) \<Rightarrow> nat
     \<Rightarrow> (8 word list \<times> SimulatedSensor list) option" where
  "update_sensors [] real_A rnd i = Some ([], [])"
| "update_sensors (s # ss) real_A rnd i =
     (case update s real_A (rnd i) of
        None \<Rightarrow> None
      | Some (sensor_output, s') \<Rightarrow>
          (case update_sensors ss real_A rnd (i + 1) of
             None \<Rightarrow> None
           | Some (bs, ss') \<Rightarrow> Some (sensor_output # bs, s' # ss')))"

text \<open>The byte of the calibrated absorbance, written when the flag is set.\<close>

definition calibrated_bytes :: "config \<Rightarrow> float \<Rightarrow> 8 word list option" where
  "calibrated_bytes cfg real_A =
     (if OUTPUT_CALIBRATED_A cfg
      then (case rounded_output real_A of
              None \<Rightarrow> None
            | Some v \<Rightarrow> Some [word_of_int v])
      else Some [])"

text \<open>
  One call of \<open>loop\<close>: the bytes written to the serial line and the new globals.
  \<open>millis\<close> is the clock, \<open>adc\<close> the ADC count read when the call accumulates, and
  \<open>rnd\<close> the numbers drawn when it ticks.
\<close>

definition loop ::
  "config \<Rightarrow> state \<Rightarrow> 32 word \<Rightarrow> int \<Rightarrow> (nat \<Rightarrow> int) \<Rightarrow> (8 word list \<times> state) option" where
  "loop cfg st millis adc rnd =
     (if millis < nextTick st
      then Some ([], st\<lparr>reads := accumulate_read_physical_sensor adc (reads st)\<rparr>)
      else
        (let (average, reads') = get_and_reset_accumulated_reads (reads st);
             real_A = physical_to_A cfg (reference st) average
         in case calibrated_bytes cfg real_A of
              None \<Rightarrow> None
            | Some first \<Rightarrow>
                (case update_sensors (sensors st) real_A rnd 0 of
                   None \<Rightarrow> None
                 | Some (bs, ss') \<Rightarrow>
                     Some (first @ bs @
                             [word_of_int (of_bool (OUTPUT_CALIBRATED_A cfg) + n_sensors), 10],
                           st\<lparr>nextTick := nextTick st + word_of_int simulation_dt_ms,
                              reads := reads',
                              sensors := ss'\<rparr>))))"


section \<open>The update step in the words of the specification\<close>

text \<open>
  Section 4.3 of the specification, over the real numbers, for comparison with
  \<open>update\<close>.  \<open>spec_smoothed\<close> is step 2: with a history, the stored entries are
  converted back to the absorbance scale, summed, and averaged together with the raw
  response as one more term; without one, the raw response stands.  \<open>spec_quantize\<close>
  is step 5: scale by 255/2, round to the nearest integer, clamp to \<open>[0, 255]\<close>.
  \<open>spec_update_output\<close> chains steps 1 to 5, where \<open>raised\<close> is the absorbance
  raised to the exponent of the sensor.
\<close>

definition spec_smoothed :: "real \<Rightarrow> real list \<Rightarrow> real" where
  "spec_smoothed raw_response hist =
     (if 1 \<le> length hist
      then (sum_list (map (\<lambda>b. b / (255 / 2)) hist) + raw_response) / (real (length hist) + 1)
      else raw_response)"

definition spec_quantize :: "real \<Rightarrow> int" where
  "spec_quantize x = max 0 (min 255 (round (x * (255 / 2))))"

definition spec_update_output :: "real \<Rightarrow> real \<Rightarrow> real \<Rightarrow> real list \<Rightarrow> real \<Rightarrow> int" where
  "spec_update_output sensitivity raised background_floor hist noise =
     spec_quantize (max (spec_smoothed (sensitivity * raised) hist) background_floor + \<bar>noise\<bar>)"

section \<open>Properties of the calibration\<close>

lemma pow_nonneg_base:
  assumes "0 \<le> m" "0 \<le> g"
  shows "pow (Fin m) (Fin g) = Fin (if g = 0 then 1 else m powr g)"
  using assms by (auto simp: pow_def)

lemma clamped_log_ratio:
  assumes "0 < c" "0 \<le> f" "0 < x"
  shows "max_float (Fin 0) (fdiv (log10f (fdiv (Fin f) (Fin x))) (Fin c))
         = Fin (if f = 0 then 0 else max 0 (log 10 (f / x) / c))"
proof (cases "f = 0")
  case True
  with assms show ?thesis
    by (simp add: max_float_def signed_inf_def)
next
  case False
  with assms have "0 < f / x" by simp
  with assms False show ?thesis
    by (auto simp: max_float_def max_def not_less)
qed

lemma physical_to_A_closed_form:
  assumes "POWER_LAW_CORRECTOR_C cfg = Fin c" "0 < c"
    and "POWER_LAW_CORRECTOR_GAMMA cfg = Fin g" "0 \<le> g"
    and "physical_full cal = Fin f" "0 \<le> f" "0 < x"
  shows "physical_to_A cfg cal (Fin x)
         = Fin (if g = 0 then 1
                else (if f = 0 then 0 else max 0 (log 10 (f / x) / c)) powr g)"
proof -
  let ?m = "if f = 0 then 0 else max 0 (log 10 (f / x) / c)"
  have m: "0 \<le> ?m" by simp
  have "physical_to_A cfg cal (Fin x) = pow (Fin ?m) (Fin g)"
    unfolding physical_to_A_def assms(1,3,5)
    by (simp only: clamped_log_ratio [OF assms(2,6,7)])
  also have "\<dots> = Fin (if g = 0 then 1 else ?m powr g)"
    by (rule pow_nonneg_base [OF m assms(4)])
  finally show ?thesis .
qed

text \<open>
  Claim C7.  With a full-illumination reading of 900, a dark reading of 100 and both
  correctors set to 1, a raw average of 900 is calibrated to 0 and a raw average of 90
  to 1.  The dark reading never enters the result: replacing it leaves
  \<open>physical_to_A\<close> unchanged, for every configuration and every raw value.
\<close>

theorem physical_to_A_end_to_end:
  "physical_to_A
     \<lparr> POWER_LAW_CORRECTOR_GAMMA = Fin 1, POWER_LAW_CORRECTOR_C = Fin 1,
       OUTPUT_CALIBRATED_A = flag \<rparr>
     \<lparr> physical_dark = Fin 100, physical_full = Fin 900 \<rparr> (Fin 900) = Fin 0
   \<and> physical_to_A
     \<lparr> POWER_LAW_CORRECTOR_GAMMA = Fin 1, POWER_LAW_CORRECTOR_C = Fin 1,
       OUTPUT_CALIBRATED_A = flag \<rparr>
     \<lparr> physical_dark = Fin 100, physical_full = Fin 900 \<rparr> (Fin 90) = Fin 1
   \<and> physical_to_A cfg (cal\<lparr>physical_dark := d\<rparr>) x = physical_to_A cfg cal x"
  by (simp add: physical_to_A_def max_float_def pow_def)

text \<open>
  Claim C1, as stated, fails: the calibrated value is not finite for every raw
  average.  With a full-illumination reading of 900, a raw average of 0 (an ADC that
  reads 0 throughout the interval) gives a quotient of plus infinity, whose logarithm
  passes the clamp at 0 and the power unchanged.
\<close>

theorem physical_to_A_zero_reading_counterexample:
  "physical_to_A source_config \<lparr> physical_dark = Fin 100, physical_full = Fin 900 \<rparr>
     (read_physical_sensor 0) = PInf
   \<and> \<not> is_finite
         (physical_to_A source_config \<lparr> physical_dark = Fin 100, physical_full = Fin 900 \<rparr>
            (read_physical_sensor 0))"
  by (simp add: physical_to_A_def source_config_def read_physical_sensor_def
      max_float_def pow_def signed_inf_def)

text \<open>
  Claim C1, amended.  For every finite raw average above 0, with a finite
  full-illumination reading that is not negative and positive correctors, the
  calibrated value is finite and not negative; where the raw average reaches or
  exceeds the full-illumination reading, so that the logarithm is not positive, the
  value is clamped to 0.
\<close>

theorem physical_to_A_finite_nonneg:
  assumes "POWER_LAW_CORRECTOR_C cfg = Fin c" "0 < c"
    and "POWER_LAW_CORRECTOR_GAMMA cfg = Fin g" "0 < g"
    and "physical_full cal = Fin f" "0 \<le> f" "0 < x"
  shows "\<exists>a. physical_to_A cfg cal (Fin x) = Fin a \<and> 0 \<le> a \<and> (f \<le> x \<longrightarrow> a = 0)"
proof -
  let ?m = "if f = 0 then 0 else max 0 (log 10 (f / x) / c)"
  have eq: "physical_to_A cfg cal (Fin x) = Fin (?m powr g)"
    using physical_to_A_closed_form [OF assms(1,2,3) _ assms(5,6,7)] assms(4) by simp
  have "?m = 0" if "f \<le> x"
  proof (cases "f = 0")
    case True
    then show ?thesis by simp
  next
    case False
    with assms that have "0 < f / x" "f / x \<le> 1" by simp_all
    then have "log 10 (f / x) \<le> 0" by simp
    with assms(2) have "log 10 (f / x) / c \<le> 0"
      by (simp add: divide_nonpos_pos)
    with False show ?thesis by (simp add: max_def)
  qed
  with eq show ?thesis by auto
qed

theorem physical_to_A_finite_nonneg_witness:
  "POWER_LAW_CORRECTOR_C source_config = Fin 1 \<and> (0::real) < 1
   \<and> POWER_LAW_CORRECTOR_GAMMA source_config = Fin (666 / 1000) \<and> (0::real) < 666 / 1000
   \<and> physical_full \<lparr> physical_dark = Fin 100, physical_full = Fin 900 \<rparr> = Fin 900
   \<and> (0::real) \<le> 900 \<and> (0::real) < 900 \<and> (900::real) \<le> 900
   \<and> physical_to_A source_config \<lparr> physical_dark = Fin 100, physical_full = Fin 900 \<rparr>
        (Fin 900) = Fin 0"
proof -
  have c: "POWER_LAW_CORRECTOR_C source_config = Fin 1"
    and g: "POWER_LAW_CORRECTOR_GAMMA source_config = Fin (666 / 1000)"
    by (simp_all add: source_config_def)
  have f: "physical_full \<lparr> physical_dark = Fin 100, physical_full = Fin 900 \<rparr> = Fin 900"
    by simp
  show ?thesis
    using physical_to_A_finite_nonneg [OF c _ g _ f, of 900] c g by auto
qed

text \<open>
  Claim C6.  With the calibration constants fixed (a finite full-illumination reading
  that is not negative, a positive scale corrector and an exponent that is not
  negative), \<open>physical_to_A\<close> does not increase: for raw values \<open>0 < x1 \<le> x2\<close> the
  absorbance at \<open>x2\<close> is at most the absorbance at \<open>x1\<close>.
\<close>

theorem physical_to_A_monotone:
  assumes "POWER_LAW_CORRECTOR_C cfg = Fin c" "0 < c"
    and "POWER_LAW_CORRECTOR_GAMMA cfg = Fin g" "0 \<le> g"
    and "physical_full cal = Fin f" "0 \<le> f"
    and "0 < x1" "x1 \<le> x2"
  shows "fle (physical_to_A cfg cal (Fin x2)) (physical_to_A cfg cal (Fin x1))"
proof -
  let ?m = "\<lambda>x. if f = 0 then 0 else max 0 (log 10 (f / x) / c)"
  from assms have x2: "0 < x2" by simp
  have "?m x2 \<le> ?m x1"
  proof (cases "f = 0")
    case True
    then show ?thesis by simp
  next
    case False
    with assms have f: "0 < f" by simp
    with assms x2 have "f / x2 \<le> f / x1" "0 < f / x2"
      by (simp_all add: frac_le)
    then have "log 10 (f / x2) \<le> log 10 (f / x1)" by simp
    with assms(2) have "log 10 (f / x2) / c \<le> log 10 (f / x1) / c"
      by (simp add: divide_right_mono)
    with False show ?thesis by (simp add: max_def)
  qed
  moreover have "0 \<le> ?m x2" by simp
  ultimately have "?m x2 powr g \<le> ?m x1 powr g"
    using assms(4) by (intro powr_mono2)
  then show ?thesis
    unfolding physical_to_A_closed_form [OF assms(1-6) x2]
      physical_to_A_closed_form [OF assms(1-7)]
    by simp
qed

theorem physical_to_A_monotone_witness:
  "POWER_LAW_CORRECTOR_C source_config = Fin 1 \<and> (0::real) < 1
   \<and> POWER_LAW_CORRECTOR_GAMMA source_config = Fin (666 / 1000) \<and> (0::real) \<le> 666 / 1000
   \<and> physical_full \<lparr> physical_dark = Fin 100, physical_full = Fin 900 \<rparr> = Fin 900
   \<and> (0::real) \<le> 900 \<and> (0::real) < 90 \<and> (90::real) \<le> 900
   \<and> fle (physical_to_A source_config
             \<lparr> physical_dark = Fin 100, physical_full = Fin 900 \<rparr> (Fin 900))
          (physical_to_A source_config
             \<lparr> physical_dark = Fin 100, physical_full = Fin 900 \<rparr> (Fin 90))"
proof -
  have c: "POWER_LAW_CORRECTOR_C source_config = Fin 1"
    and g: "POWER_LAW_CORRECTOR_GAMMA source_config = Fin (666 / 1000)"
    by (simp_all add: source_config_def)
  have f: "physical_full \<lparr> physical_dark = Fin 100, physical_full = Fin 900 \<rparr> = Fin 900"
    by simp
  show ?thesis
    using physical_to_A_monotone [OF c _ g _ f, of 90 900] c g by simp
qed

section \<open>Properties of the utility functions\<close>

lemma to_byte_value: "to_byte = Fin (255 / 2)"
  by (simp add: to_byte_def UINT8_MAX_def MAX_A_def)

lemma uniform_finite:
  "uniform r (Fin a) = Fin ((real_of_int r / real_of_int RAND_MAX - 1 / 2) * a)"
  by (simp add: uniform_def fsub_def RAND_MAX_def)

text \<open>
  Claim C3.  The comment of \<open>uniform\<close> and the claim give the range of the sample as
  \<open>[-sigma, +sigma]\<close>.  The function scales a number of \<open>[-1/2, 1/2]\<close> by
  \<open>sigma\<close>: for every draw of \<open>rand()\<close> and every amplitude \<open>a \<ge> 0\<close> the sample
  lies in \<open>[-a/2, a/2]\<close>, so that no value beyond half the amplitude is returned.
\<close>

theorem uniform_within_half_sigma:
  assumes "0 \<le> r" "r \<le> RAND_MAX" "0 \<le> a"
  shows "\<exists>v. uniform r (Fin a) = Fin v \<and> - (a / 2) \<le> v \<and> v \<le> a / 2"
proof -
  define u where "u = real_of_int r / real_of_int RAND_MAX"
  define w where "w = (u - 1 / 2) * a"
  have pos: "0 < real_of_int RAND_MAX" by (simp add: RAND_MAX_def)
  from assms(1) pos have lo: "0 \<le> u" by (simp add: u_def)
  from assms(2) pos have hi: "u \<le> 1" by (simp add: u_def)
  have "\<bar>u - 1 / 2\<bar> \<le> 1 / 2" using lo hi by linarith
  then have "\<bar>u - 1 / 2\<bar> * a \<le> 1 / 2 * a"
    using assms(3) by (rule mult_right_mono)
  then have "\<bar>w\<bar> \<le> a / 2"
    using assms(3) by (simp add: w_def abs_mult)
  then have "- (a / 2) \<le> w \<and> w \<le> a / 2"
    by linarith
  moreover have "uniform r (Fin a) = Fin w"
    by (simp add: uniform_finite w_def u_def)
  ultimately show ?thesis by blast
qed

theorem uniform_within_half_sigma_witness:
  "(0::int) \<le> RAND_MAX \<and> RAND_MAX \<le> RAND_MAX \<and> (0::real) \<le> 1
   \<and> uniform RAND_MAX (Fin 1) = Fin (1 / 2)
   \<and> (\<exists>v. uniform RAND_MAX (Fin 1) = Fin v \<and> - (1 / 2) \<le> v \<and> v \<le> 1 / 2)"
proof -
  have h: "(0::int) \<le> RAND_MAX" by (simp add: RAND_MAX_def)
  have "\<exists>v. uniform RAND_MAX (Fin 1) = Fin v \<and> - (1 / 2) \<le> v \<and> v \<le> 1 / 2"
    using uniform_within_half_sigma [OF h order_refl, of 1] by simp
  moreover have "uniform RAND_MAX (Fin 1) = Fin (1 / 2)"
    by (simp add: uniform_def fsub_def RAND_MAX_def)
  ultimately show ?thesis using h by simp
qed

lemma accumulate_reads_state:
  assumes "accumulated_reads_value acc = Fin v"
  shows "accumulate_reads adcs acc =
           \<lparr> accumulated_reads_value = Fin (v + real_of_int (sum_list adcs)),
             accumulated_reads_count = accumulated_reads_count acc + of_nat (length adcs) \<rparr>"
  using assms
proof (induction adcs arbitrary: acc v)
  case Nil
  then show ?case by simp
next
  case (Cons adc adcs)
  have "accumulated_reads_value (accumulate_read_physical_sensor adc acc)
          = Fin (v + real_of_int adc)"
    using Cons.prems by (simp add: accumulate_read_physical_sensor_def read_physical_sensor_def)
  from Cons.IH [OF this] show ?case
    by (simp add: accumulate_read_physical_sensor_def algebra_simps)
qed

lemma sint_count: "n \<le> 32767 \<Longrightarrow> sint (of_nat n :: 16 word) = int n"
proof -
  assume "n \<le> 32767"
  then have "signed_take_bit 15 (int n) = int n"
    by (intro signed_take_bit_int_eq_self) simp_all
  then show ?thesis
    using signed_of_nat [of n, where 'a = int and 'b = 16] by simp
qed

text \<open>
  Claim C8.  For every sequence of reads that is not empty, made of ADC counts between
  0 and 1023 and at most 16384 long, accumulated from the empty state,
  \<open>get_and_reset_accumulated_reads\<close> returns their sum divided by their count and
  leaves the accumulator empty; and whatever the state before, the accumulator is empty
  after the call, so that the next cycle starts afresh.  For these sequences the sum
  stays below \<open>2 ^ 24\<close>, where the addition of the code is exact, and the count stays
  within the range of the counter.  The reads 2, 4, 6 average to 4, and a following
  read of 10 averages to 10.
\<close>

theorem drain_average:
  assumes "adcs \<noteq> []"
    and "list_all (\<lambda>adc. 0 \<le> adc \<and> adc \<le> 1023) adcs"
    and "length adcs \<le> 16384"
  shows "get_and_reset_accumulated_reads (accumulate_reads adcs empty_accumulator)
           = (Fin (real_of_int (sum_list adcs) / real (length adcs)), empty_accumulator)
         \<and> snd (get_and_reset_accumulated_reads prior) = empty_accumulator
         \<and> 0 \<le> sum_list adcs \<and> sum_list adcs < 2 ^ 24"
proof -
  have st: "accumulate_reads adcs empty_accumulator =
           \<lparr> accumulated_reads_value = Fin (real_of_int (sum_list adcs)),
             accumulated_reads_count = of_nat (length adcs) \<rparr>"
    using accumulate_reads_state [of empty_accumulator 0 adcs]
    by (simp add: empty_accumulator_def)
  from assms(3) have len: "length adcs \<le> 32767" by simp
  from assms(1) have nz: "real (length adcs) \<noteq> 0" by simp
  have lo: "0 \<le> sum_list adcs"
    using assms(2) by (intro sum_list_nonneg) (auto simp: list_all_iff)
  have "sum_list adcs = sum_list (map (\<lambda>adc. adc) adcs)" by simp
  also have "\<dots> \<le> sum_list (map (\<lambda>adc. 1023) adcs)"
    using assms(2) by (intro sum_list_mono) (auto simp: list_all_iff)
  also have "\<dots> = int (length adcs) * 1023"
    by (simp add: sum_list_triv)
  also have "\<dots> \<le> 16384 * 1023" using assms(3) by simp
  finally have hi: "sum_list adcs < 2 ^ 24" by simp
  have reset: "snd (get_and_reset_accumulated_reads prior) = empty_accumulator"
    by (simp add: get_and_reset_accumulated_reads_def empty_accumulator_def)
  from nz lo hi reset show ?thesis
    unfolding st
    by (simp add: get_and_reset_accumulated_reads_def sint_count [OF len]
        empty_accumulator_def)
qed

theorem drain_average_witness:
  "[2, 4, 6] \<noteq> ([] :: int list)
   \<and> list_all (\<lambda>adc. 0 \<le> adc \<and> adc \<le> 1023) [2, 4, 6 :: int]
   \<and> length [2, 4, 6 :: int] \<le> 16384
   \<and> [10] \<noteq> ([] :: int list)
   \<and> list_all (\<lambda>adc. 0 \<le> adc \<and> adc \<le> 1023) [10 :: int]
   \<and> length [10 :: int] \<le> 16384
   \<and> get_and_reset_accumulated_reads (accumulate_reads [2, 4, 6] empty_accumulator)
       = (Fin 4, empty_accumulator)
   \<and> get_and_reset_accumulated_reads
         (accumulate_reads [10]
            (snd (get_and_reset_accumulated_reads
                    (accumulate_reads [2, 4, 6] empty_accumulator))))
       = (Fin 10, empty_accumulator)"
proof -
  have a: "[2, 4, 6] \<noteq> ([] :: int list)"
    and a': "list_all (\<lambda>adc. 0 \<le> adc \<and> adc \<le> 1023) [2, 4, 6 :: int]"
    and b: "length [2, 4, 6 :: int] \<le> 16384"
    and c: "[10] \<noteq> ([] :: int list)"
    and c': "list_all (\<lambda>adc. 0 \<le> adc \<and> adc \<le> 1023) [10 :: int]"
    and d: "length [10 :: int] \<le> 16384"
    by simp_all
  show ?thesis
    using drain_average [OF a a' b, of "accumulate_reads [2, 4, 6] empty_accumulator"]
      drain_average [OF c c' d]
    by simp
qed

section \<open>Properties of the quantization\<close>

lemma max_float_finite: "max_float (Fin a) (Fin b) = Fin (max a b)"
  by (simp add: max_float_def max_def)

lemma min_float_finite: "min_float (Fin a) (Fin b) = Fin (min a b)"
  by (simp add: min_float_def min_def)

lemma abs_float_finite: "abs_float (Fin a) = Fin \<bar>a\<bar>"
  by (simp add: abs_float_def)

lemma round_long_byte_range:
  assumes "0 \<le> w" "w \<le> 255"
  shows "round_long (Fin w) = Some \<lfloor>w + 1 / 2\<rfloor>"
proof -
  have "0 \<le> \<lfloor>w + 1 / 2\<rfloor>" using assms(1) by simp
  moreover have "\<lfloor>w + 1 / 2\<rfloor> \<le> 255" using assms(2) by (simp add: floor_le_iff)
  ultimately show ?thesis using assms(1) by (simp add: round_long_def)
qed

lemma rounded_output_finite:
  "rounded_output (Fin x) = Some \<lfloor>max 0 (min (x * (255 / 2)) 255) + 1 / 2\<rfloor>"
  by (simp add: rounded_output_def to_byte_value UINT8_MAX_def min_float_finite
      max_float_finite round_long_byte_range)

lemma clamp_then_round:
  fixes y :: real
  shows "\<lfloor>max 0 (min y 255) + 1 / 2\<rfloor> = max 0 (min 255 \<lfloor>y + 1 / 2\<rfloor>)"
proof -
  define k where "k = \<lfloor>y + 1 / 2\<rfloor>"
  consider "y \<le> 0" | "0 < y" "y < 255" | "255 \<le> y" by linarith
  then show ?thesis
  proof cases
    case 1
    then have "k \<le> 0" by (simp add: k_def floor_le_iff)
    then have "max 0 (min 255 k) = 0" by simp
    moreover from 1 have "max 0 (min y 255) = 0" by simp
    ultimately show ?thesis by (simp add: k_def)
  next
    case 2
    then have "0 \<le> k" "k \<le> 255"
      by (simp_all add: k_def floor_le_iff)
    then have "max 0 (min 255 k) = k" by simp
    moreover from 2 have "max 0 (min y 255) = y" by simp
    ultimately show ?thesis by (simp add: k_def)
  next
    case 3
    then have "255 \<le> k" by (simp add: k_def le_floor_iff)
    then have "max 0 (min 255 k) = 255" by simp
    moreover from 3 have "max 0 (min y 255) = 255" by simp
    ultimately show ?thesis by (simp add: k_def)
  qed
qed

lemma rounded_output_spec: "rounded_output (Fin x) = Some (spec_quantize x)"
  by (simp only: rounded_output_finite spec_quantize_def round_def clamp_then_round)

lemma rounded_output_cases:
  "\<exists>v. rounded_output x = Some v \<and> 0 \<le> v \<and> v \<le> 255
       \<and> (fle MAX_A x \<longrightarrow> v = 255) \<and> (fle x (Fin 0) \<longrightarrow> v = 0)"
proof (cases x)
  case (Fin a)
  let ?w = "max 0 (min (a * (255 / 2)) 255)"
  have "0 \<le> \<lfloor>?w + 1 / 2\<rfloor>" by simp
  moreover have "\<lfloor>?w + 1 / 2\<rfloor> \<le> 255" by (simp add: floor_le_iff)
  moreover have "\<lfloor>?w + 1 / 2\<rfloor> = 255" if "2 \<le> a"
  proof -
    from that have "?w = 255" by simp
    then show ?thesis by simp
  qed
  moreover have "\<lfloor>?w + 1 / 2\<rfloor> = 0" if "a \<le> 0"
  proof -
    from that have "a * (255 / 2) \<le> 0" by (simp add: mult_le_0_iff)
    then have "?w = 0" by simp
    then show ?thesis by simp
  qed
  ultimately show ?thesis
    using Fin by (simp add: rounded_output_finite MAX_A_def)
next
  case PInf
  then show ?thesis
    by (simp add: rounded_output_def to_byte_value UINT8_MAX_def signed_inf_def
        min_float_def max_float_def round_long_def MAX_A_def)
next
  case MInf
  then show ?thesis
    by (simp add: rounded_output_def to_byte_value UINT8_MAX_def signed_inf_def
        min_float_def max_float_def round_long_def MAX_A_def)
next
  case NaN
  then show ?thesis
    by (simp add: rounded_output_def to_byte_value UINT8_MAX_def signed_inf_def
        min_float_def max_float_def round_long_def MAX_A_def)
qed

section \<open>Properties of the simulated sensors\<close>

lemma acc_loop_sum:
  "acc_loop mem n i (Fin v)
     = Fin (v + (\<Sum>j = i..<n. real (unat (mem ! j)) / (255 / 2)))"
proof (induction mem n i "Fin v" arbitrary: v rule: acc_loop.induct)
  case (1 mem n i)
  show ?case
  proof (cases "i < n")
    case True
    have step: "fadd (Fin v) (fdiv (Fin (real (unat (mem ! i)))) to_byte)
                  = Fin (v + real (unat (mem ! i)) / (255 / 2))"
      by (simp add: to_byte_value)
    have "acc_loop mem n i (Fin v)
            = acc_loop mem n (i + 1) (Fin (v + real (unat (mem ! i)) / (255 / 2)))"
      using True by (subst acc_loop.simps) (simp only: step if_True)
    also have "\<dots> = Fin (v + real (unat (mem ! i)) / (255 / 2)
                        + (\<Sum>j = i + 1..<n. real (unat (mem ! j)) / (255 / 2)))"
      using "1.hyps" [OF True step] by simp
    also have "\<dots> = Fin (v + (\<Sum>j = i..<n. real (unat (mem ! j)) / (255 / 2)))"
      using True by (simp add: sum.atLeast_Suc_lessThan add.assoc)
    finally show ?thesis .
  next
    case False
    then show ?thesis by (subst acc_loop.simps) simp
  qed
qed

lemma sum_take_nth:
  fixes f :: "'a \<Rightarrow> real"
  assumes "n \<le> length xs"
  shows "(\<Sum>j = 0..<n. f (xs ! j)) = sum_list (map f (take n xs))"
proof -
  have "sum_list (map f (take n xs)) = (\<Sum>j = 0..<length (take n xs). map f (take n xs) ! j)"
    by (simp only: sum_list_sum_nth length_map)
  also have "\<dots> = (\<Sum>j = 0..<n. f (xs ! j))"
    using assms by (intro sum.cong) simp_all
  finally show ?thesis by simp
qed

lemma acc_loop_history:
  assumes "sensor_ok s"
  shows "acc_loop (memory s) (memory_size s) 0 (Fin 0)
           = Fin (sum_list (map (\<lambda>b. b / (255 / 2)) (map (\<lambda>b. real (unat b)) (history s))))"
proof -
  from assms have le: "memory_size s \<le> length (memory s)"
    by (simp add: sensor_ok_def)
  show ?thesis
    unfolding acc_loop_sum history_def
    using sum_take_nth [OF le, of "\<lambda>b. real (unat b) / (255 / 2)"]
    by (simp add: comp_def)
qed

lemma shift_loop_length: "length (shift_loop mem n i) = length mem"
proof (induction mem n i rule: shift_loop.induct)
  case (1 mem n i)
  show ?case
  proof (cases "i < n - 1")
    case True
    with "1.IH" show ?thesis by (subst shift_loop.simps) simp
  next
    case False
    then show ?thesis by (subst shift_loop.simps) simp
  qed
qed

lemma shift_loop_nth:
  assumes "n \<le> length mem" "j < length mem"
  shows "shift_loop mem n i ! j = (if i \<le> j \<and> j < n - 1 then mem ! (j + 1) else mem ! j)"
  using assms
proof (induction mem n i rule: shift_loop.induct)
  case (1 mem n i)
  show ?case
  proof (cases "i < n - 1")
    case True
    let ?mem' = "mem[i := mem ! (i + 1)]"
    have "shift_loop mem n i ! j = shift_loop ?mem' n (i + 1) ! j"
      using True by (subst shift_loop.simps) simp
    also have "\<dots> = (if i + 1 \<le> j \<and> j < n - 1 then ?mem' ! (j + 1) else ?mem' ! j)"
      using "1.IH" [OF True] "1.prems" by simp
    also have "\<dots> = (if i \<le> j \<and> j < n - 1 then mem ! (j + 1) else mem ! j)"
      using True "1.prems" by (auto simp: nth_list_update)
    finally show ?thesis .
  next
    case False
    then show ?thesis by (subst shift_loop.simps) auto
  qed
qed

lemma shifted_memory_take:
  assumes "1 \<le> n" "n \<le> length mem"
  shows "take n ((shift_loop mem n 0)[n - 1 := b]) = tl (take n mem) @ [b]"
proof (rule nth_equalityI)
  show "length (take n ((shift_loop mem n 0)[n - 1 := b])) = length (tl (take n mem) @ [b])"
    using assms by (simp add: shift_loop_length)
next
  fix j
  assume "j < length (take n ((shift_loop mem n 0)[n - 1 := b]))"
  then have j: "j < n" using assms by (simp add: shift_loop_length)
  show "take n ((shift_loop mem n 0)[n - 1 := b]) ! j = (tl (take n mem) @ [b]) ! j"
  proof (cases "j = n - 1")
    case True
    with assms j show ?thesis
      by (simp add: shift_loop_length nth_append)
  next
    case False
    with j have lt: "j < n - 1" by simp
    with assms have "(tl (take n mem) @ [b]) ! j = mem ! (j + 1)"
      by (simp add: nth_append nth_tl)
    moreover have "take n ((shift_loop mem n 0)[n - 1 := b]) ! j = mem ! (j + 1)"
      using assms j lt False by (simp add: shift_loop_nth)
    ultimately show ?thesis by simp
  qed
qed

lemma update_returns:
  "\<exists>v. rounded_output (simulated_output s real_A r) = Some v
      \<and> 0 \<le> v \<and> v \<le> 255
      \<and> (fle MAX_A (simulated_output s real_A r) \<longrightarrow> v = 255)
      \<and> (fle (simulated_output s real_A r) (Fin 0) \<longrightarrow> v = 0)
      \<and> update s real_A r =
           Some (word_of_int v,
                 if 1 \<le> memory_size s
                 then s\<lparr>memory := (shift_loop (memory s) (memory_size s) 0)
                                     [memory_size s - 1 := word_of_int v]\<rparr>
                 else s)"
proof -
  from rounded_output_cases [of "simulated_output s real_A r"]
  obtain v where v: "rounded_output (simulated_output s real_A r) = Some v"
    "0 \<le> v" "v \<le> 255"
    "fle MAX_A (simulated_output s real_A r) \<longrightarrow> v = 255"
    "fle (simulated_output s real_A r) (Fin 0) \<longrightarrow> v = 0"
    by blast
  have "update s real_A r =
           Some (word_of_int v,
                 if 1 \<le> memory_size s
                 then s\<lparr>memory := (shift_loop (memory s) (memory_size s) 0)
                                     [memory_size s - 1 := word_of_int v]\<rparr>
                 else s)"
    by (simp add: update_def v(1) Let_def)
  with v show ?thesis by blast
qed

lemma update_step:
  assumes "sensor_ok s"
  shows "\<exists>b s'. update s real_A r = Some (b, s') \<and> sensor_ok s'
           \<and> memory_size s' = memory_size s
           \<and> history s' = (if 1 \<le> memory_size s then tl (history s) @ [b] else [])"
proof -
  obtain v where u: "update s real_A r =
           Some (word_of_int v,
                 if 1 \<le> memory_size s
                 then s\<lparr>memory := (shift_loop (memory s) (memory_size s) 0)
                                     [memory_size s - 1 := word_of_int v]\<rparr>
                 else s)"
    using update_returns [of s real_A r] by blast
  show ?thesis
  proof (cases "1 \<le> memory_size s")
    case True
    from assms have le: "memory_size s \<le> length (memory s)" by (simp add: sensor_ok_def)
    from True u assms show ?thesis
      using shifted_memory_take [OF True le, of "word_of_int v"]
      by (simp add: sensor_ok_def history_def shift_loop_length)
  next
    case False
    with u assms show ?thesis by (simp add: history_def)
  qed
qed


lemma new_SimulatedSensor_ok:
  assumes "new_SimulatedSensor response_time_ms bg al ga sg = Some s"
  shows "sensor_ok s" and "memory s = replicate MAX_MEMORY_SIZE 0"
    and "\<exists>n. round_long (fdiv response_time_ms (Fin (of_int simulation_dt_ms))) = Some n
           \<and> memory_size s = min (size_t_of_long n) MAX_MEMORY_SIZE"
    and "gamma s = ga" and "alpha s = al" and "background s = bg" and "sigma s = sg"
  using assms
  by (auto simp: new_SimulatedSensor_def sensor_ok_def split: option.splits)


lemma simulated_output_without_memory:
  assumes "memory_size s = 0"
  shows "simulated_output (s\<lparr>memory := m\<rparr>) real_A r = simulated_output s real_A r"
  using assms by (simp add: simulated_output_def floored_def smoothed_def base_value_def)

text \<open>
  Claim C2.  Let the power of the absorbance, the sensitivity, the background and the
  noise sample be finite, and let \<open>hist\<close> be the history of the sensor.  Then
  \<open>update\<close> computes, in this order: the raw response, sensitivity times power;
  the smoothed value, which with a history is the sum of the history entries converted
  back to the absorbance scale plus the raw response, divided by the depth plus 1, and
  otherwise the raw response; the floor at the background; the addition of the magnitude
  of the noise; and the quantization.  The byte returned is the one section 4.3 of the
  specification prescribes, and it is not wrapped.  With depth 0 the byte is
  \<open>quantize (max (sensitivity * power) background + |noise|)\<close>, the sensor is left
  as it was, and the result is the same whatever the memory holds.
\<close>

theorem update_follows_spec:
  assumes "sensor_ok s"
    and "pow real_A (gamma s) = Fin p"
    and "alpha s = Fin al"
    and "background s = Fin bg"
    and "uniform r (sigma s) = Fin noise"
    and "hist = map (\<lambda>b. real (unat b)) (history s)"
  shows "base_value s real_A = Fin (al * p)
    \<and> smoothed s real_A = Fin (spec_smoothed (al * p) hist)
    \<and> floored s real_A = Fin (max (spec_smoothed (al * p) hist) bg)
    \<and> simulated_output s real_A r = Fin (max (spec_smoothed (al * p) hist) bg + \<bar>noise\<bar>)
    \<and> (\<exists>s'. update s real_A r = Some (word_of_int (spec_update_output al p bg hist noise), s')
            \<and> (memory_size s = 0 \<longrightarrow> s' = s))
    \<and> uint (word_of_int (spec_update_output al p bg hist noise) :: 8 word)
        = spec_update_output al p bg hist noise
    \<and> (memory_size s = 0 \<longrightarrow>
          spec_update_output al p bg hist noise = spec_quantize (max (al * p) bg + \<bar>noise\<bar>)
          \<and> update (s\<lparr>memory := m\<rparr>) real_A r
              = Some (word_of_int (spec_quantize (max (al * p) bg + \<bar>noise\<bar>)), s\<lparr>memory := m\<rparr>))"
proof -
  let ?q = "spec_update_output al p bg hist noise"
  have len: "length hist = memory_size s"
    using assms(1,6) by (simp add: history_def sensor_ok_def)
  have len': "length (history s) = memory_size s"
    using assms(1) by (simp add: history_def sensor_ok_def)
  have base: "base_value s real_A = Fin (al * p)"
    by (simp add: base_value_def assms(2,3) mult.commute)
  have sm: "smoothed s real_A = Fin (spec_smoothed (al * p) hist)"
  proof (cases "1 \<le> memory_size s")
    case True
    then show ?thesis
      by (simp add: smoothed_def base acc_loop_history [OF assms(1)] spec_smoothed_def len'
          assms(6) add.commute)
  next
    case False
    then show ?thesis by (simp add: smoothed_def base spec_smoothed_def len)
  qed
  have fl: "floored s real_A = Fin (max (spec_smoothed (al * p) hist) bg)"
    by (simp add: floored_def sm assms(4) max_def)
  have out: "simulated_output s real_A r = Fin (max (spec_smoothed (al * p) hist) bg + \<bar>noise\<bar>)"
    by (simp add: simulated_output_def fl assms(5) abs_float_finite)
  have ro: "rounded_output (simulated_output s real_A r) = Some ?q"
    by (simp add: out rounded_output_spec spec_update_output_def)
  obtain v where v: "rounded_output (simulated_output s real_A r) = Some v"
      "0 \<le> v" "v \<le> 255"
    and upd: "update s real_A r =
           Some (word_of_int v,
                 if 1 \<le> memory_size s
                 then s\<lparr>memory := (shift_loop (memory s) (memory_size s) 0)
                                     [memory_size s - 1 := word_of_int v]\<rparr>
                 else s)"
    using update_returns [of s real_A r] by blast
  from v(1) ro have vq: "v = ?q" by simp
  have ex: "\<exists>s'. update s real_A r = Some (word_of_int ?q, s') \<and> (memory_size s = 0 \<longrightarrow> s' = s)"
    using upd vq by auto
  have range: "uint (word_of_int ?q :: 8 word) = ?q"
    using v(2,3) vq by (simp add: uint_word_of_int take_bit_int_eq_self)
  have zero: "?q = spec_quantize (max (al * p) bg + \<bar>noise\<bar>)
      \<and> update (s\<lparr>memory := m\<rparr>) real_A r
          = Some (word_of_int (spec_quantize (max (al * p) bg + \<bar>noise\<bar>)), s\<lparr>memory := m\<rparr>)"
    if z: "memory_size s = 0"
  proof -
    from z len have q: "?q = spec_quantize (max (al * p) bg + \<bar>noise\<bar>)"
      by (simp add: spec_update_output_def spec_smoothed_def)
    have "rounded_output (simulated_output (s\<lparr>memory := m\<rparr>) real_A r) = Some ?q"
      using ro by (simp only: simulated_output_without_memory [OF z])
    with z q show ?thesis by (simp add: update_def)
  qed
  from base sm fl out ex range zero show ?thesis by blast
qed

theorem update_follows_spec_witness:
  "sensor_ok \<lparr> memory_size = 0, background = Fin (3 / 100), alpha = Fin (50 / 100),
               gamma = Fin 1, sigma = Fin (3 / 100), memory = replicate 50 0 \<rparr>
   \<and> memory_size \<lparr> memory_size = 0, background = Fin (3 / 100), alpha = Fin (50 / 100),
               gamma = Fin 1, sigma = Fin (3 / 100), memory = replicate 50 0 \<rparr> = 0
   \<and> update \<lparr> memory_size = 0, background = Fin (3 / 100), alpha = Fin (50 / 100),
               gamma = Fin 1, sigma = Fin (3 / 100), memory = replicate 50 0 \<rparr> (Fin 1) 0
       = Some (66, \<lparr> memory_size = 0, background = Fin (3 / 100), alpha = Fin (50 / 100),
               gamma = Fin 1, sigma = Fin (3 / 100), memory = replicate 50 0 \<rparr>)"
proof -
  let ?s = "\<lparr> memory_size = 0, background = Fin (3 / 100), alpha = Fin (50 / 100),
               gamma = Fin 1, sigma = Fin (3 / 100), memory = replicate 50 (0 :: 8 word) \<rparr>"
  have ok: "sensor_ok ?s" by (simp add: sensor_ok_def MAX_MEMORY_SIZE_def)
  have p: "pow (Fin 1) (gamma ?s) = Fin 1" by (simp add: pow_def)
  have al: "alpha ?s = Fin (1 / 2)" and bg: "background ?s = Fin (3 / 100)" by simp_all
  have no: "uniform 0 (sigma ?s) = Fin (- (3 / 200))"
    by (simp add: uniform_def fsub_def RAND_MAX_def)
  have hist: "[] = map (\<lambda>b. real (unat b)) (history ?s)" by (simp add: history_def)
  have q: "spec_quantize (max (1 / 2 * 1) (3 / 100) + \<bar>- (3 / 200)\<bar>) = 66"
    by (simp add: spec_quantize_def round_def)
  show ?thesis
    using update_follows_spec [OF ok p al bg no hist, of "replicate 50 0"] ok q
    by simp
qed

text \<open>
  Claim C4.  For every sensor and every input, \<open>update\<close> returns a byte whose value
  is the rounded, clamped output: an integer between 0 and 255 that the narrowing to
  8 bits leaves unchanged.  Where the value before quantization is at least \<open>MAX_A\<close>
  the byte is 255, and where it is at most 0 the byte is 0.
\<close>

theorem update_saturates:
  "\<exists>v s'. update s real_A r = Some (word_of_int v, s')
      \<and> rounded_output (simulated_output s real_A r) = Some v
      \<and> 0 \<le> v \<and> v \<le> 255
      \<and> uint (word_of_int v :: 8 word) = v
      \<and> (fle MAX_A (simulated_output s real_A r) \<longrightarrow> v = 255)
      \<and> (fle (simulated_output s real_A r) (Fin 0) \<longrightarrow> v = 0)"
proof -
  obtain v where v: "rounded_output (simulated_output s real_A r) = Some v"
      "0 \<le> v" "v \<le> 255"
      "fle MAX_A (simulated_output s real_A r) \<longrightarrow> v = 255"
      "fle (simulated_output s real_A r) (Fin 0) \<longrightarrow> v = 0"
    and upd: "update s real_A r =
           Some (word_of_int v,
                 if 1 \<le> memory_size s
                 then s\<lparr>memory := (shift_loop (memory s) (memory_size s) 0)
                                     [memory_size s - 1 := word_of_int v]\<rparr>
                 else s)"
    using update_returns [of s real_A r] by blast
  have "uint (word_of_int v :: 8 word) = v"
    using v(2,3) by (simp add: uint_word_of_int take_bit_int_eq_self)
  with v upd show ?thesis by blast
qed

theorem update_saturates_witness:
  "fle MAX_A
     (simulated_output
        \<lparr> memory_size = 0, background = Fin (3 / 100), alpha = Fin (50 / 100),
          gamma = Fin 1, sigma = Fin (3 / 100), memory = replicate 50 0 \<rparr> (Fin 10) 0)
   \<and> (\<exists>s'. update
        \<lparr> memory_size = 0, background = Fin (3 / 100), alpha = Fin (50 / 100),
          gamma = Fin 1, sigma = Fin (3 / 100), memory = replicate 50 0 \<rparr> (Fin 10) 0
        = Some (255, s'))
   \<and> fle (simulated_output
        \<lparr> memory_size = 0, background = Fin 0, alpha = Fin 1,
          gamma = Fin 1, sigma = Fin 0, memory = replicate 50 0 \<rparr> (Fin 0) 0) (Fin 0)
   \<and> (\<exists>s'. update
        \<lparr> memory_size = 0, background = Fin 0, alpha = Fin 1,
          gamma = Fin 1, sigma = Fin 0, memory = replicate 50 0 \<rparr> (Fin 0) 0
        = Some (0, s'))"
proof -
  let ?s = "\<lparr> memory_size = 0, background = Fin (3 / 100), alpha = Fin (50 / 100),
          gamma = Fin 1, sigma = Fin (3 / 100), memory = replicate 50 (0 :: 8 word) \<rparr>"
  let ?c = "\<lparr> memory_size = 0, background = Fin 0, alpha = Fin 1,
          gamma = Fin 1, sigma = Fin 0, memory = replicate 50 (0 :: 8 word) \<rparr>"
  have hi: "fle MAX_A (simulated_output ?s (Fin 10) 0)"
    by (simp add: simulated_output_def floored_def smoothed_def base_value_def pow_def
        uniform_def fsub_def RAND_MAX_def abs_float_def MAX_A_def)
  have lo: "fle (simulated_output ?c (Fin 0) 0) (Fin 0)"
    by (simp add: simulated_output_def floored_def smoothed_def base_value_def pow_def
        uniform_def fsub_def RAND_MAX_def abs_float_def)
  from update_saturates [of ?s "Fin 10" 0] hi
  have "\<exists>s'. update ?s (Fin 10) 0 = Some (255, s')" by auto
  moreover from update_saturates [of ?c "Fin 0" 0] lo
  have "\<exists>s'. update ?c (Fin 0) 0 = Some (0, s')" by auto
  ultimately show ?thesis using hi lo by blast
qed

lemma shifted_memory_drop:
  assumes "1 \<le> n" "n \<le> length mem"
  shows "drop n ((shift_loop mem n 0)[n - 1 := b]) = drop n mem"
proof (rule nth_equalityI)
  show "length (drop n ((shift_loop mem n 0)[n - 1 := b])) = length (drop n mem)"
    by (simp add: shift_loop_length)
next
  fix j
  assume "j < length (drop n ((shift_loop mem n 0)[n - 1 := b]))"
  then have j: "n + j < length mem" by (simp add: shift_loop_length)
  with assms have "(shift_loop mem n 0)[n - 1 := b] ! (n + j) = mem ! (n + j)"
    by (auto simp add: shift_loop_length shift_loop_nth)
  with j show "drop n ((shift_loop mem n 0)[n - 1 := b]) ! j = drop n mem ! j"
    by (simp add: shift_loop_length)
qed

lemma shifted_memory:
  assumes "1 \<le> n" "n \<le> length mem"
  shows "(shift_loop mem n 0)[n - 1 := b] = tl (take n mem) @ [b] @ drop n mem"
proof -
  let ?m = "(shift_loop mem n 0)[n - 1 := b]"
  have "?m = take n ?m @ drop n ?m" by simp
  also have "\<dots> = (tl (take n mem) @ [b]) @ drop n mem"
    by (simp only: shifted_memory_take [OF assms] shifted_memory_drop [OF assms])
  finally show ?thesis by simp
qed

lemma update_shift:
  assumes "sensor_ok s"
  shows "\<exists>v. rounded_output (simulated_output s real_A r) = Some v
      \<and> update s real_A r =
           Some (word_of_int v,
                 if 1 \<le> memory_size s
                 then s\<lparr>memory := tl (history s) @ [word_of_int v]
                                     @ drop (memory_size s) (memory s)\<rparr>
                 else s)"
proof -
  from update_returns [of s real_A r]
  obtain v where v: "rounded_output (simulated_output s real_A r) = Some v"
    and u: "update s real_A r =
           Some (word_of_int v,
                 if 1 \<le> memory_size s
                 then s\<lparr>memory := (shift_loop (memory s) (memory_size s) 0)
                                     [memory_size s - 1 := word_of_int v]\<rparr>
                 else s)"
    by blast
  show ?thesis
  proof (cases "1 \<le> memory_size s")
    case True
    from assms have le: "memory_size s \<le> length (memory s)" by (simp add: sensor_ok_def)
    have "(shift_loop (memory s) (memory_size s) 0)[memory_size s - 1 := word_of_int v]
            = tl (history s) @ [word_of_int v] @ drop (memory_size s) (memory s)"
      unfolding history_def by (rule shifted_memory [OF True le])
    with v u show ?thesis by simp
  next
    case False
    with v u show ?thesis by simp
  qed
qed

lemma updates_fifo:
  assumes "sensor_ok s"
  shows "\<exists>outs s'. updates s inputs = Some (outs, s') \<and> length outs = length inputs
           \<and> sensor_ok s' \<and> memory_size s' = memory_size s
           \<and> length (history s') = memory_size s
           \<and> (1 \<le> memory_size s \<longrightarrow> history s' = drop (length inputs) (history s @ outs))"
  using assms
proof (induction inputs arbitrary: s)
  case Nil
  then show ?case by (simp add: history_def sensor_ok_def)
next
  case (Cons input inputs)
  obtain real_A r where input: "input = (real_A, r)" by (cases input)
  from update_step [OF Cons.prems, of real_A r]
  obtain b s1 where s1: "update s real_A r = Some (b, s1)" "sensor_ok s1"
    "memory_size s1 = memory_size s"
    "history s1 = (if 1 \<le> memory_size s then tl (history s) @ [b] else [])" by blast
  from Cons.IH [OF s1(2)]
  obtain outs s' where s': "updates s1 inputs = Some (outs, s')" "length outs = length inputs"
    "sensor_ok s'" "memory_size s' = memory_size s1" "length (history s') = memory_size s1"
    "1 \<le> memory_size s1 \<longrightarrow> history s' = drop (length inputs) (history s1 @ outs)"
    by blast
  have run: "updates s (input # inputs) = Some (b # outs, s')"
    using s1(1) s'(1) input by simp
  have fifo: "history s' = drop (length (input # inputs)) (history s @ b # outs)"
    if d: "1 \<le> memory_size s"
  proof -
    from Cons.prems have "length (history s) = memory_size s"
      by (simp add: history_def sensor_ok_def)
    with d obtain x xs where h: "history s = x # xs" by (cases "history s") auto
    from s'(6) s1(3,4) d have "history s' = drop (length inputs) ((tl (history s) @ [b]) @ outs)"
      by simp
    with h show ?thesis by simp
  qed
  from run s'(2,3,4,5) s1(3) fifo show ?case by auto
qed

lemma size_t_of_long_id: "0 \<le> n \<Longrightarrow> n < 65536 \<Longrightarrow> int (size_t_of_long n) = n"
  by (simp add: size_t_of_long_def)

lemma simulated_output_value:
  assumes "sensor_ok s"
    and "pow real_A (gamma s) = Fin p"
    and "alpha s = Fin al"
    and "background s = Fin bg"
    and "uniform r (sigma s) = Fin noise"
  shows "simulated_output s real_A r
           = Fin (max (spec_smoothed (al * p) (map (\<lambda>b. real (unat b)) (history s))) bg
                  + \<bar>noise\<bar>)"
proof -
  have len: "length (history s) = memory_size s"
    using assms(1) by (simp add: history_def sensor_ok_def)
  have base: "base_value s real_A = Fin (al * p)"
    by (simp add: base_value_def assms(2,3) mult.commute)
  have sm: "smoothed s real_A
              = Fin (spec_smoothed (al * p) (map (\<lambda>b. real (unat b)) (history s)))"
  proof (cases "1 \<le> memory_size s")
    case True
    then show ?thesis
      by (simp add: smoothed_def base acc_loop_history [OF assms(1)] spec_smoothed_def len
          add.commute)
  next
    case False
    then show ?thesis by (simp add: smoothed_def base spec_smoothed_def len)
  qed
  show ?thesis
    by (simp add: simulated_output_def floored_def sm assms(4,5) abs_float_finite max_def)
qed

lemma output_after_history:
  assumes "length rest = 48"
  shows "rounded_output (simulated_output
           \<lparr> memory_size = 2, background = Fin (3 / 100), alpha = Fin (50 / 100),
             gamma = Fin 1, sigma = Fin (3 / 100), memory = x # y # rest \<rparr> (Fin 1) 0)
         = Some (spec_quantize
                   (max (spec_smoothed (1 / 2) [real (unat x), real (unat y)]) (3 / 100)
                    + 3 / 200))"
proof -
  let ?s = "\<lparr> memory_size = 2, background = Fin (3 / 100), alpha = Fin (50 / 100),
             gamma = Fin 1, sigma = Fin (3 / 100), memory = x # y # rest \<rparr>"
  have ok: "sensor_ok ?s" using assms by (simp add: sensor_ok_def MAX_MEMORY_SIZE_def)
  have p: "pow (Fin 1) (gamma ?s) = Fin 1" by (simp add: pow_def)
  have al: "alpha ?s = Fin (1 / 2)" and bg: "background ?s = Fin (3 / 100)" by simp_all
  have no: "uniform 0 (sigma ?s) = Fin (- (3 / 200))"
    by (simp add: uniform_def fsub_def RAND_MAX_def)
  have h: "history ?s = [x, y]" by (simp add: history_def numeral_2_eq_2)
  from simulated_output_value [OF ok p al bg no] h
  show ?thesis by (simp add: rounded_output_spec)
qed

lemma slow_sensor:
  "new_SimulatedSensor (Fin 400) (Fin (2 / 100)) (Fin (75 / 100)) (Fin 1) (Fin (3 / 100))
     = Some \<lparr> memory_size = 16, background = Fin (2 / 100), alpha = Fin (75 / 100),
              gamma = Fin 1, sigma = Fin (3 / 100), memory = replicate 50 0 \<rparr>"
  by (simp add: new_SimulatedSensor_def simulation_dt_ms_def round_long_def
      size_t_of_long_def MAX_MEMORY_SIZE_def)

text \<open>
  Claim C5.  On every sensor whose array has its declared length of 50 and whose depth
  is at most 50, as the constructor builds it: the history has as many entries as the
  depth and never more than 50.  An update returns the rounded output as its byte and,
  with a depth of at least 1, leaves the memory with the oldest entry of the history
  dropped, the others moved down by one, the new byte appended as the newest, and the
  slots beyond the depth untouched; with depth 0 it leaves the sensor as it was.  After
  any number of updates the depth is the same, the array keeps its length, and the
  history is what remains of the old history followed by the outputs, in their order,
  once as many entries as there were updates are dropped from the front.  The
  constructor sets the depth to the rounded quotient of response time and sampling
  interval, converted to \<open>size_t\<close> and capped at 50; for a rounded quotient from 0 up
  to 65535 that is the smaller of the rounded quotient and 50.
\<close>

theorem history_bounded_fifo:
  assumes "sensor_ok s"
  shows "memory_size s \<le> 50 \<and> length (memory s) = 50
    \<and> length (history s) = memory_size s
    \<and> (\<exists>v. rounded_output (simulated_output s real_A r) = Some v
          \<and> update s real_A r =
               Some (word_of_int v,
                     if 1 \<le> memory_size s
                     then s\<lparr>memory := tl (history s) @ [word_of_int v]
                                         @ drop (memory_size s) (memory s)\<rparr>
                     else s))
    \<and> (\<exists>outs s'. updates s inputs = Some (outs, s') \<and> length outs = length inputs
          \<and> sensor_ok s' \<and> memory_size s' = memory_size s
          \<and> length (history s') = memory_size s
          \<and> (1 \<le> memory_size s \<longrightarrow> history s' = drop (length inputs) (history s @ outs)))
    \<and> (new_SimulatedSensor response_time_ms bg al ga sg = Some s0 \<longrightarrow>
          sensor_ok s0
          \<and> (\<exists>n. round_long (fdiv response_time_ms (Fin (of_int simulation_dt_ms))) = Some n
                \<and> memory_size s0 = min (size_t_of_long n) MAX_MEMORY_SIZE
                \<and> (0 \<le> n \<and> n < 65536 \<longrightarrow> int (memory_size s0) = min n 50)))"
proof -
  from assms have a: "memory_size s \<le> 50" "length (memory s) = 50"
    "length (history s) = memory_size s"
    by (simp_all add: sensor_ok_def history_def MAX_MEMORY_SIZE_def)
  have c: "sensor_ok s0
      \<and> (\<exists>n. round_long (fdiv response_time_ms (Fin (of_int simulation_dt_ms))) = Some n
            \<and> memory_size s0 = min (size_t_of_long n) MAX_MEMORY_SIZE
            \<and> (0 \<le> n \<and> n < 65536 \<longrightarrow> int (memory_size s0) = min n 50))"
    if new: "new_SimulatedSensor response_time_ms bg al ga sg = Some s0"
  proof -
    from new_SimulatedSensor_ok(3) [OF new]
    obtain n where n: "round_long (fdiv response_time_ms (Fin (of_int simulation_dt_ms))) = Some n"
      "memory_size s0 = min (size_t_of_long n) MAX_MEMORY_SIZE" by blast
    have "int (memory_size s0) = min n 50" if "0 \<le> n" "n < 65536"
      using size_t_of_long_id [OF that] n(2) by (simp add: MAX_MEMORY_SIZE_def min_def)
    with n new_SimulatedSensor_ok(1) [OF new] show ?thesis by blast
  qed
  from a update_shift [OF assms, of real_A r] updates_fifo [OF assms, of inputs] c
  show ?thesis by blast
qed

theorem history_bounded_fifo_witness:
  "sensor_ok \<lparr> memory_size = 2, background = Fin (3 / 100), alpha = Fin (50 / 100),
               gamma = Fin 1, sigma = Fin (3 / 100), memory = 100 # 200 # replicate 48 0 \<rparr>
   \<and> update \<lparr> memory_size = 2, background = Fin (3 / 100), alpha = Fin (50 / 100),
               gamma = Fin 1, sigma = Fin (3 / 100), memory = 100 # 200 # replicate 48 0 \<rparr>
         (Fin 1) 0
       = Some (123, \<lparr> memory_size = 2, background = Fin (3 / 100), alpha = Fin (50 / 100),
               gamma = Fin 1, sigma = Fin (3 / 100), memory = 200 # 123 # replicate 48 0 \<rparr>)
   \<and> update \<lparr> memory_size = 2, background = Fin (3 / 100), alpha = Fin (50 / 100),
               gamma = Fin 1, sigma = Fin (3 / 100), memory = 200 # 123 # replicate 48 0 \<rparr>
         (Fin 1) 0
       = Some (131, \<lparr> memory_size = 2, background = Fin (3 / 100), alpha = Fin (50 / 100),
               gamma = Fin 1, sigma = Fin (3 / 100), memory = 123 # 131 # replicate 48 0 \<rparr>)
   \<and> updates \<lparr> memory_size = 2, background = Fin (3 / 100), alpha = Fin (50 / 100),
               gamma = Fin 1, sigma = Fin (3 / 100), memory = 100 # 200 # replicate 48 0 \<rparr>
         [(Fin 1, 0), (Fin 1, 0)]
       = Some ([123, 131],
               \<lparr> memory_size = 2, background = Fin (3 / 100), alpha = Fin (50 / 100),
               gamma = Fin 1, sigma = Fin (3 / 100), memory = 123 # 131 # replicate 48 0 \<rparr>)
   \<and> new_SimulatedSensor (Fin 400) (Fin (2 / 100)) (Fin (75 / 100)) (Fin 1) (Fin (3 / 100))
       = Some \<lparr> memory_size = 16, background = Fin (2 / 100), alpha = Fin (75 / 100),
              gamma = Fin 1, sigma = Fin (3 / 100), memory = replicate 50 0 \<rparr>
   \<and> round_long (fdiv (Fin 400) (Fin (of_int simulation_dt_ms))) = Some 16
   \<and> (0::int) \<le> 16 \<and> (16::int) < 65536"
proof -
  let ?s0 = "\<lparr> memory_size = 2, background = Fin (3 / 100), alpha = Fin (50 / 100),
      gamma = Fin 1, sigma = Fin (3 / 100), memory = 100 # 200 # replicate 48 (0 :: 8 word) \<rparr>"
  let ?s1 = "\<lparr> memory_size = 2, background = Fin (3 / 100), alpha = Fin (50 / 100),
      gamma = Fin 1, sigma = Fin (3 / 100), memory = 200 # 123 # replicate 48 (0 :: 8 word) \<rparr>"
  let ?s2 = "\<lparr> memory_size = 2, background = Fin (3 / 100), alpha = Fin (50 / 100),
      gamma = Fin 1, sigma = Fin (3 / 100), memory = 123 # 131 # replicate 48 (0 :: 8 word) \<rparr>"
  have ok0: "sensor_ok ?s0" and ok1: "sensor_ok ?s1"
    by (simp_all add: sensor_ok_def MAX_MEMORY_SIZE_def)
  have q0: "spec_quantize (max (spec_smoothed (1 / 2) [100, 200]) (3 / 100) + 3 / 200) = 123"
    and q1: "spec_quantize (max (spec_smoothed (1 / 2) [200, 123]) (3 / 100) + 3 / 200) = 131"
    by (simp_all add: spec_quantize_def spec_smoothed_def round_def)
  have r0: "rounded_output (simulated_output ?s0 (Fin 1) 0) = Some 123"
    using output_after_history [of "replicate 48 0" 100 200] q0 by simp
  have r1: "rounded_output (simulated_output ?s1 (Fin 1) 0) = Some 131"
    using output_after_history [of "replicate 48 0" 200 123] q1 by simp
  have h0: "history ?s0 = [100, 200]" and h1: "history ?s1 = [200, 123]"
    by (simp_all add: history_def numeral_2_eq_2)
  have u0: "update ?s0 (Fin 1) 0 = Some (123, ?s1)"
    using history_bounded_fifo [OF ok0, of "Fin 1" 0] r0 h0 by auto
  have u1: "update ?s1 (Fin 1) 0 = Some (131, ?s2)"
    using history_bounded_fifo [OF ok1, of "Fin 1" 0] r1 h1 by auto
  have us: "updates ?s0 [(Fin 1, 0), (Fin 1, 0)] = Some ([123, 131], ?s2)"
    using u0 u1 by simp
  have n: "round_long (fdiv (Fin 400) (Fin (of_int simulation_dt_ms))) = Some 16"
    by (simp add: simulation_dt_ms_def round_long_def)
  from ok0 u0 u1 us slow_sensor n show ?thesis by simp
qed



section \<open>Properties of the loop\<close>

lemma update_sensors_total:
  "\<exists>bs ss'. update_sensors ss real_A rnd i = Some (bs, ss')
      \<and> length bs = length ss \<and> length ss' = length ss
      \<and> (\<forall>k<length ss. update (ss ! k) real_A (rnd (i + k)) = Some (bs ! k, ss' ! k))"
proof (induction ss arbitrary: i)
  case Nil
  then show ?case by simp
next
  case (Cons s ss)
  from update_returns [of s real_A "rnd i"]
  obtain b s' where hd: "update s real_A (rnd i) = Some (b, s')" by blast
  from Cons.IH [of "i + 1"]
  obtain bs ss' where tl: "update_sensors ss real_A rnd (i + 1) = Some (bs, ss')"
    "length bs = length ss" "length ss' = length ss"
    "\<forall>k<length ss. update (ss ! k) real_A (rnd (i + 1 + k)) = Some (bs ! k, ss' ! k)"
    by blast
  have "update ((s # ss) ! k) real_A (rnd (i + k)) = Some ((b # bs) ! k, (s' # ss') ! k)"
    if "k < length (s # ss)" for k
  proof (cases k)
    case 0
    with hd show ?thesis by simp
  next
    case (Suc k')
    with that tl(4) show ?thesis by simp
  qed
  with hd tl show ?case by simp
qed

lemma calibrated_bytes_total:
  "\<exists>first. calibrated_bytes cfg real_A = Some first
      \<and> length first = (if OUTPUT_CALIBRATED_A cfg then 1 else 0)"
proof -
  from rounded_output_cases [of real_A]
  obtain v where "rounded_output real_A = Some v" by blast
  then show ?thesis by (simp add: calibrated_bytes_def)
qed

lemma n_sensors_value: "n_sensors = 4"
  by (simp add: n_sensors_def sensors_table_def)

lemma sensors_table_value:
  "sensors_table =
     [ Some \<lparr> memory_size = 0, background = Fin (4 / 100), alpha = Fin 3, gamma = Fin 1,
              sigma = Fin (20 / 100), memory = replicate 50 0 \<rparr>,
       Some \<lparr> memory_size = 16, background = Fin (2 / 100), alpha = Fin (75 / 100),
              gamma = Fin 1, sigma = Fin (3 / 100), memory = replicate 50 0 \<rparr>,
       Some \<lparr> memory_size = 0, background = Fin (3 / 100), alpha = Fin (50 / 100),
              gamma = Fin 1, sigma = Fin (3 / 100), memory = replicate 50 0 \<rparr>,
       Some \<lparr> memory_size = 4, background = Fin (33 / 100), alpha = Fin (75 / 100),
              gamma = Fin 2, sigma = Fin (1 / 100), memory = replicate 50 0 \<rparr> ]"
  by (simp add: sensors_table_def new_SimulatedSensor_def simulation_dt_ms_def round_long_def
      size_t_of_long_def MAX_MEMORY_SIZE_def)

lemma first_output:
  assumes "d \<le> 50"
  shows "rounded_output (simulated_output
           \<lparr> memory_size = d, background = Fin bg, alpha = Fin al, gamma = Fin g,
             sigma = Fin sg, memory = replicate 50 0 \<rparr> (Fin 1) 0)
         = Some (spec_quantize (max (al / (real d + 1)) bg + \<bar>sg / 2\<bar>))"
proof -
  let ?s = "\<lparr> memory_size = d, background = Fin bg, alpha = Fin al, gamma = Fin g,
             sigma = Fin sg, memory = replicate 50 (0 :: 8 word) \<rparr>"
  have ok: "sensor_ok ?s" using assms by (simp add: sensor_ok_def MAX_MEMORY_SIZE_def)
  have h: "history ?s = replicate d 0" using assms by (simp add: history_def min_def)
  have acc: "acc_loop (memory ?s) (memory_size ?s) 0 (Fin 0) = Fin 0"
    using acc_loop_history [OF ok] h by (simp add: sum_list_replicate)
  have b: "base_value ?s (Fin 1) = Fin al" by (simp add: base_value_def pow_def)
  have sm: "smoothed ?s (Fin 1) = Fin (al / (real d + 1))"
    using acc b by (cases "d = 0") (simp_all add: smoothed_def add.commute)
  have "simulated_output ?s (Fin 1) 0 = Fin (max (al / (real d + 1)) bg + \<bar>sg / 2\<bar>)"
    by (simp add: simulated_output_def floored_def sm uniform_def fsub_def RAND_MAX_def
        abs_float_finite max_def)
  then show ?thesis by (simp add: rounded_output_spec)
qed

lemma first_update:
  assumes "d \<le> 50"
    and "spec_quantize (max (al / (real d + 1)) bg + \<bar>sg / 2\<bar>) = v"
    and "update \<lparr> memory_size = d, background = Fin bg, alpha = Fin al, gamma = Fin g,
                  sigma = Fin sg, memory = replicate 50 0 \<rparr> (Fin 1) 0 = Some (b, s')"
  shows "b = word_of_int v"
  using update_returns [of "\<lparr> memory_size = d, background = Fin bg, alpha = Fin al,
      gamma = Fin g, sigma = Fin sg, memory = replicate 50 0 \<rparr>" "Fin 1" 0]
    first_output [OF assms(1), of bg al g sg] assms(2,3)
  by auto

lemma first_average:
  "physical_to_A source_config \<lparr> physical_dark = Fin 100, physical_full = Fin 900 \<rparr>
     (fst (get_and_reset_accumulated_reads
             (accumulate_read_physical_sensor 90 empty_accumulator))) = Fin 1"
  by (simp add: get_and_reset_accumulated_reads_def accumulate_read_physical_sensor_def
      empty_accumulator_def read_physical_sensor_def physical_to_A_def source_config_def
      max_float_def pow_def)

lemma list_of_four:
  assumes "length xs = 4"
  shows "xs = [xs ! 0, xs ! 1, xs ! 2, xs ! 3]"
  using assms by (auto simp: list_eq_iff_nth_eq less_Suc_eq numeral_eq_Suc nth_Cons')

text \<open>
  Claim C9.  On a tick, \<open>loop\<close> writes the optional byte of the calibrated
  absorbance, then one byte for each sensor of the table, in the order of the table,
  each the result of one update of that sensor with the same absorbance, then the count
  byte and the newline.  The count byte equals 1 if the calibrated byte is enabled and 0
  otherwise, plus the number of sensors, which is the number of value bytes written
  before it.
\<close>

theorem frame_integrity:
  assumes "\<not> millis < nextTick st"
    and "int (length (sensors st)) = n_sensors"
    and "real_A = physical_to_A cfg (reference st)
                    (fst (get_and_reset_accumulated_reads (reads st)))"
  shows "\<exists>first bs count st'.
      loop cfg st millis adc rnd = Some (first @ bs @ [count, 10], st')
      \<and> calibrated_bytes cfg real_A = Some first
      \<and> length first = (if OUTPUT_CALIBRATED_A cfg then 1 else 0)
      \<and> length bs = length (sensors st)
      \<and> length (sensors st') = length (sensors st)
      \<and> (\<forall>k<length (sensors st).
            update (sensors st ! k) real_A (rnd k) = Some (bs ! k, sensors st' ! k))
      \<and> unat count = (if OUTPUT_CALIBRATED_A cfg then 1 else 0) + length (sensors st)
      \<and> unat count = length first + length bs"
proof -
  obtain first where first: "calibrated_bytes cfg real_A = Some first"
    "length first = (if OUTPUT_CALIBRATED_A cfg then 1 else 0)"
    using calibrated_bytes_total by blast
  from update_sensors_total [of "sensors st" real_A rnd 0]
  obtain bs ss' where bs: "update_sensors (sensors st) real_A rnd 0 = Some (bs, ss')"
    "length bs = length (sensors st)" "length ss' = length (sensors st)"
    "\<forall>k<length (sensors st). update (sensors st ! k) real_A (rnd k) = Some (bs ! k, ss' ! k)"
    by auto
  define count :: "8 word" where
    "count = word_of_int (of_bool (OUTPUT_CALIBRATED_A cfg) + n_sensors)"
  define st' where
    "st' = st\<lparr>nextTick := nextTick st + word_of_int simulation_dt_ms,
              reads := snd (get_and_reset_accumulated_reads (reads st)),
              sensors := ss'\<rparr>"
  have run: "loop cfg st millis adc rnd = Some (first @ bs @ [count, 10], st')"
    using assms(1) first(1) bs(1)
    by (simp add: loop_def assms(3) count_def st'_def split_beta)
  from assms(2) have four: "length (sensors st) = 4"
    by (simp add: n_sensors_value)
  have cnt: "unat count = (if OUTPUT_CALIBRATED_A cfg then 1 else 0) + length (sensors st)"
    by (simp add: count_def n_sensors_value four)
  have "sensors st' = ss'" by (simp add: st'_def)
  with run first bs cnt show ?thesis by auto
qed

theorem frame_integrity_witness:
  "\<not> (0 :: 32 word) <
       nextTick \<lparr> reference = \<lparr> physical_dark = Fin 100, physical_full = Fin 900 \<rparr>,
                  reads = accumulate_read_physical_sensor 90 empty_accumulator,
                  sensors = map the sensors_table, nextTick = 0 \<rparr>
   \<and> int (length (sensors
         \<lparr> reference = \<lparr> physical_dark = Fin 100, physical_full = Fin 900 \<rparr>,
           reads = accumulate_read_physical_sensor 90 empty_accumulator,
           sensors = map the sensors_table, nextTick = 0 \<rparr>)) = n_sensors
   \<and> (\<exists>st'. loop source_config
         \<lparr> reference = \<lparr> physical_dark = Fin 100, physical_full = Fin 900 \<rparr>,
           reads = accumulate_read_physical_sensor 90 empty_accumulator,
           sensors = map the sensors_table, nextTick = 0 \<rparr> 0 0 (\<lambda>k. 0)
         = Some ([255, 8, 66, 43, 4, 10], st'))"
proof -
  let ?st = "\<lparr> reference = \<lparr> physical_dark = Fin 100, physical_full = Fin 900 \<rparr>,
           reads = accumulate_read_physical_sensor 90 empty_accumulator,
           sensors = map the sensors_table, nextTick = (0 :: 32 word) \<rparr>"
  have tick: "\<not> (0 :: 32 word) < nextTick ?st" by simp
  have n: "int (length (sensors ?st)) = n_sensors" by (simp add: n_sensors_def)
  have off: "\<not> OUTPUT_CALIBRATED_A source_config" by (simp add: source_config_def)
  have A: "Fin 1 = physical_to_A source_config (reference ?st)
                     (fst (get_and_reset_accumulated_reads (reads ?st)))"
    using first_average by simp
  from frame_integrity [OF tick n A, of 0 "\<lambda>k. 0"]
  obtain first bs count st' where run:
    "loop source_config ?st 0 0 (\<lambda>k. 0) = Some (first @ bs @ [count, 10], st')"
    and first: "length first = (if OUTPUT_CALIBRATED_A source_config then 1 else 0)"
    and len: "length bs = length (sensors ?st)"
    and each: "\<forall>k<length (sensors ?st).
          update (sensors ?st ! k) (Fin 1) 0 = Some (bs ! k, sensors st' ! k)"
    and cnt: "unat count
          = (if OUTPUT_CALIBRATED_A source_config then 1 else 0) + length (sensors ?st)"
    by blast
  from first off have e: "first = []" by simp
  from cnt off have c: "count = 4"
    by (simp add: sensors_table_def word_eq_iff_unsigned [where ?'a = nat])
  from len have l: "length bs = 4" by (simp add: sensors_table_def)
  have q0: "spec_quantize (max (3 / (real 0 + 1)) (4 / 100) + \<bar>(20 / 100) / 2\<bar>) = 255"
    and q1: "spec_quantize (max ((75 / 100) / (real 16 + 1)) (2 / 100) + \<bar>(3 / 100) / 2\<bar>) = 8"
    and q2: "spec_quantize (max ((50 / 100) / (real 0 + 1)) (3 / 100) + \<bar>(3 / 100) / 2\<bar>) = 66"
    and q3: "spec_quantize (max ((75 / 100) / (real 4 + 1)) (33 / 100) + \<bar>(1 / 100) / 2\<bar>) = 43"
    by (simp_all add: spec_quantize_def round_def)
  have len4: "length (sensors ?st) = 4" by (simp add: sensors_table_def)
  have u: "update (sensors ?st ! k) (Fin 1) 0 = Some (bs ! k, sensors st' ! k)"
    if "k < 4" for k
    using each that unfolding len4 by blast
  have "bs ! 0 = 255"
    using u [of 0] first_update [OF _ q0] by (simp add: sensors_table_value)
  moreover have "bs ! 1 = 8"
    using u [of 1] first_update [OF _ q1] by (simp add: sensors_table_value)
  moreover have "bs ! 2 = 66"
    using u [of 2] first_update [OF _ q2] by (simp add: sensors_table_value)
  moreover have "bs ! 3 = 43"
    using u [of 3] first_update [OF _ q3] by (simp add: sensors_table_value)
  ultimately have "[bs ! 0, bs ! 1, bs ! 2, bs ! 3] = [255, 8, 66, 43]" by simp
  with list_of_four [OF l] have "bs = [255, 8, 66, 43]" by simp
  with run e c have "loop source_config ?st 0 0 (\<lambda>k. 0) = Some ([255, 8, 66, 43, 4, 10], st')"
    by simp
  with tick n show ?thesis by blast
qed

end
